theory Spec2Isabelle
  imports Main
begin

section \<open>The quiz game of master.py\<close>

text \<open>
  The program is one class, \<open>QuizGame\<close>, over a SQLite connection. Its methods are
  embedded as functions on an explicit world: the three tables as the connection sees them
  and as they were last committed, the messages given to \<open>logging.error\<close>, the lines
  waiting on standard input and what was printed.

  A Python \<open>str\<close> is a list of code points and a \<open>bytes\<close> object a list of bytes; both
  are lists of 8-bit characters here, so the model covers the strings whose code points
  are below 256 (Latin-1), and \<open>length\<close> is Python's \<open>len\<close> on them.
\<close>

type_synonym pystr = string
type_synonym bytes = string

subsection \<open>The string methods the program calls\<close>

text \<open>
  \<open>str.isalnum\<close>, \<open>str.lower\<close> and \<open>str.strip\<close> on code points below 256, as the
  Unicode tables of CPython class them.
\<close>

definition isalnum_char :: "char \<Rightarrow> bool" where
  "isalnum_char c =
     (let n = (of_char c :: nat) in
        (48 \<le> n \<and> n \<le> 57) \<or> (65 \<le> n \<and> n \<le> 90) \<or> (97 \<le> n \<and> n \<le> 122) \<or>
        n = 170 \<or> n = 178 \<or> n = 179 \<or> n = 181 \<or> n = 185 \<or> n = 186 \<or>
        (188 \<le> n \<and> n \<le> 190) \<or> (192 \<le> n \<and> n \<le> 214) \<or> (216 \<le> n \<and> n \<le> 246) \<or>
        248 \<le> n)"

definition isalnum :: "pystr \<Rightarrow> bool" where
  "isalnum s = (s \<noteq> [] \<and> list_all isalnum_char s)"

definition lower_char :: "char \<Rightarrow> char" where
  "lower_char c =
     (let n = (of_char c :: nat) in
        if (65 \<le> n \<and> n \<le> 90) \<or> (192 \<le> n \<and> n \<le> 214) \<or> (216 \<le> n \<and> n \<le> 222)
        then char_of (n + 32) else c)"

definition lower :: "pystr \<Rightarrow> pystr" where
  "lower s = map lower_char s"

definition isspace_char :: "char \<Rightarrow> bool" where
  "isspace_char c =
     (let n = (of_char c :: nat) in
        (9 \<le> n \<and> n \<le> 13) \<or> (28 \<le> n \<and> n \<le> 32) \<or> n = 133 \<or> n = 160)"

definition strip :: "pystr \<Rightarrow> pystr" where
  "strip s = rev (dropWhile isspace_char (rev (dropWhile isspace_char s)))"

subsection \<open>Exceptions\<close>

datatype sqlite_error = IntegrityError | OperationalError | DatabaseError | InterfaceError

datatype exn =
    Sqlite sqlite_error
  | UnicodeEncodeError
  | UnicodeDecodeError
  | EOFError
  | ZeroDivisionError

subsection \<open>Encodings\<close>

definition is_ascii :: "char \<Rightarrow> bool" where
  "is_ascii c = ((of_char c :: nat) < 128)"

text \<open>\<open>s.encode("ascii")\<close> and \<open>b.decode("ascii")\<close> raise on a value above 127.\<close>

definition encode_ascii :: "pystr \<Rightarrow> exn + bytes" where
  "encode_ascii s = (if list_all is_ascii s then Inr s else Inl UnicodeEncodeError)"

definition decode_ascii :: "bytes \<Rightarrow> exn + pystr" where
  "decode_ascii b = (if list_all is_ascii b then Inr b else Inl UnicodeDecodeError)"

text \<open>\<open>s.encode("utf-8")\<close>: one byte below 128, two bytes from 128 to 255.\<close>

definition utf8_char :: "char \<Rightarrow> bytes" where
  "utf8_char c =
     (let n = (of_char c :: nat) in
        if n < 128 then [c] else [char_of (192 + n div 64), char_of (128 + n mod 64)])"

definition encode_utf8 :: "pystr \<Rightarrow> bytes" where
  "encode_utf8 s = concat (map utf8_char s)"

text \<open>\<open>binascii.hexlify\<close>, and \<open>hexdigest()\<close> of a digest: two lower-case hex digits a byte.\<close>

definition hexdigit :: "nat \<Rightarrow> char" where
  "hexdigit n = (if n < 10 then char_of (48 + n) else char_of (87 + n))"

definition hex_byte :: "char \<Rightarrow> bytes" where
  "hex_byte c = [hexdigit ((of_char c :: nat) div 16), hexdigit ((of_char c :: nat) mod 16)]"

definition hexlify :: "bytes \<Rightarrow> bytes" where
  "hexlify b = concat (map hex_byte b)"

definition is_hex_char :: "char \<Rightarrow> bool" where
  "is_hex_char c =
     (let n = (of_char c :: nat) in (48 \<le> n \<and> n \<le> 57) \<or> (97 \<le> n \<and> n \<le> 102))"

subsection \<open>hashlib\<close>

text \<open>
  The two hashlib functions the program calls are parameters of the model:
  \<open>hashlib.sha256(b).digest()\<close> and \<open>hashlib.pbkdf2_hmac(name, password, salt, iterations)\<close>.
  What the theorems need of them is their output width, \<open>hashlib_ok\<close>.
\<close>

record hashlib =
  sha256 :: "bytes \<Rightarrow> bytes"
  pbkdf2_hmac :: "string \<Rightarrow> bytes \<Rightarrow> bytes \<Rightarrow> nat \<Rightarrow> bytes"

definition hashlib_ok :: "hashlib \<Rightarrow> bool" where
  "hashlib_ok H =
     ((\<forall>b. length (sha256 H b) = 32) \<and>
      (\<forall>p s n. length (pbkdf2_hmac H ''sha512'' p s n) = 64))"

subsection \<open>The world\<close>

record tables =
  questions :: "(pystr \<times> pystr) list"
  users :: "pystr \<rightharpoonup> pystr"
  scores :: "(pystr \<times> int) list"

datatype log_record =
    Error string
  | ErrorWith string sqlite_error

datatype out_event =
    Print pystr
  | Prompt pystr
  | PrintScore int
  | PrintPercent int nat

text \<open>
  \<open>faults\<close> is what the storage layer will answer to the coming calls of
  \<open>execute\<close> and \<open>commit\<close>: \<open>Some e\<close> for a call that raises the \<open>sqlite3.Error\<close>
  \<open>e\<close> whatever the statement, \<open>None\<close> for a call that runs; past the end, every call
  runs.
\<close>

record world =
  cur :: tables
  disk :: tables
  faults :: "sqlite_error option list"
  errlog :: "log_record list"
  stdin :: "pystr list"
  stdout :: "out_event list"

definition logging_error :: "log_record \<Rightarrow> world \<Rightarrow> world" where
  "logging_error m w = w\<lparr>errlog := errlog w @ [m]\<rparr>"

definition print_out :: "out_event \<Rightarrow> world \<Rightarrow> world" where
  "print_out e w = w\<lparr>stdout := stdout w @ [e]\<rparr>"

subsection \<open>The sqlite3 calls\<close>

definition storage_call :: "world \<Rightarrow> sqlite_error option \<times> world" where
  "storage_call w =
     (case faults w of [] \<Rightarrow> (None, w) | f # fs \<Rightarrow> (f, w\<lparr>faults := fs\<rparr>))"

text \<open>\<open>INSERT INTO users (username, password) VALUES (?, ?)\<close>; username is the primary key.\<close>

definition execute_insert_user :: "pystr \<Rightarrow> pystr \<Rightarrow> world \<Rightarrow> (sqlite_error + unit) \<times> world" where
  "execute_insert_user username password w =
     (case storage_call w of
        (Some e, w1) \<Rightarrow> (Inl e, w1)
      | (None, w1) \<Rightarrow>
          (case users (cur w1) username of
             Some _ \<Rightarrow> (Inl IntegrityError, w1)
           | None \<Rightarrow>
               (Inr (), w1\<lparr>cur := (cur w1)\<lparr>users := (users (cur w1))(username \<mapsto> password)\<rparr>\<rparr>)))"

text \<open>\<open>SELECT * FROM users WHERE username=?\<close> and \<open>fetchone()\<close>: the row, or None.\<close>

definition execute_select_user :: "pystr \<Rightarrow> world \<Rightarrow> (sqlite_error + (pystr \<times> pystr) option) \<times> world" where
  "execute_select_user username w =
     (case storage_call w of
        (Some e, w1) \<Rightarrow> (Inl e, w1)
      | (None, w1) \<Rightarrow>
          (Inr (map_option (\<lambda>p. (username, p)) (users (cur w1) username)), w1))"

text \<open>\<open>INSERT INTO questions (question, answer) VALUES (?, ?)\<close>.\<close>

definition execute_insert_question :: "pystr \<Rightarrow> pystr \<Rightarrow> world \<Rightarrow> (sqlite_error + unit) \<times> world" where
  "execute_insert_question question answer w =
     (case storage_call w of
        (Some e, w1) \<Rightarrow> (Inl e, w1)
      | (None, w1) \<Rightarrow>
          (Inr (), w1\<lparr>cur := (cur w1)\<lparr>questions := questions (cur w1) @ [(question, answer)]\<rparr>\<rparr>))"

text \<open>\<open>SELECT question, answer FROM questions\<close> and \<open>fetchall()\<close>.\<close>

definition execute_select_questions :: "world \<Rightarrow> (sqlite_error + (pystr \<times> pystr) list) \<times> world" where
  "execute_select_questions w =
     (case storage_call w of
        (Some e, w1) \<Rightarrow> (Inl e, w1)
      | (None, w1) \<Rightarrow> (Inr (questions (cur w1)), w1))"

text \<open>\<open>INSERT INTO scores (username, score) VALUES (?, ?)\<close>; the foreign key is not enforced.\<close>

definition execute_insert_score :: "pystr \<Rightarrow> int \<Rightarrow> world \<Rightarrow> (sqlite_error + unit) \<times> world" where
  "execute_insert_score username score w =
     (case storage_call w of
        (Some e, w1) \<Rightarrow> (Inl e, w1)
      | (None, w1) \<Rightarrow>
          (Inr (), w1\<lparr>cur := (cur w1)\<lparr>scores := scores (cur w1) @ [(username, score)]\<rparr>\<rparr>))"

text \<open>\<open>self.conn.commit()\<close>: what the connection sees becomes what is stored.\<close>

definition commit :: "world \<Rightarrow> (sqlite_error + unit) \<times> world" where
  "commit w =
     (case storage_call w of
        (Some e, w1) \<Rightarrow> (Inl e, w1)
      | (None, w1) \<Rightarrow> (Inr (), w1\<lparr>disk := cur w1\<rparr>))"

subsection \<open>QuizGame\<close>

text \<open>\<open>add_question\<close>: both calls stand in one \<open>try\<close> that catches every \<open>sqlite3.Error\<close>.\<close>

definition add_question :: "pystr \<Rightarrow> pystr \<Rightarrow> world \<Rightarrow> (exn + unit) \<times> world" where
  "add_question question answer w =
     (case execute_insert_question question answer w of
        (Inl e, w1) \<Rightarrow> (Inr (), logging_error (ErrorWith ''Error adding question: '' e) w1)
      | (Inr _, w1) \<Rightarrow>
          (case commit w1 of
             (Inl e, w2) \<Rightarrow> (Inr (), logging_error (ErrorWith ''Error adding question: '' e) w2)
           | (Inr _, w2) \<Rightarrow> (Inr (), w2)))"

text \<open>
  \<open>register_user\<close>: \<open>rnd\<close> is what \<open>os.urandom(60)\<close> returns. The \<open>try\<close> around the
  insert and the commit catches \<open>sqlite3.IntegrityError\<close> only.
\<close>

definition register_user :: "hashlib \<Rightarrow> bytes \<Rightarrow> pystr \<Rightarrow> pystr \<Rightarrow> world \<Rightarrow> (exn + bool) \<times> world" where
  "register_user H rnd username password w =
     (if username = [] \<or> password = [] then
        (Inr False, logging_error (Error ''Username or password cannot be empty.'') w)
      else if length username < 3 \<or> length password < 8 then
        (Inr False, logging_error (Error ''Username must be at least 3 characters long, and password must be at least 8 characters long.'') w)
      else if \<not> (isalnum username \<and> isalnum password) then
        (Inr False, logging_error (Error ''Username and password must contain only alphanumeric characters.'') w)
      else
        (case encode_ascii (hexlify (sha256 H rnd)) of
           Inl x \<Rightarrow> (Inl x, w)
         | Inr salt \<Rightarrow>
             (let pwdhash = hexlify (pbkdf2_hmac H ''sha512'' (encode_utf8 password) salt 100000) in
              case decode_ascii (salt @ pwdhash) of
                Inl x \<Rightarrow> (Inl x, w)
              | Inr credential \<Rightarrow>
                  (case execute_insert_user username credential w of
                     (Inl e, w1) \<Rightarrow>
                       (if e = IntegrityError then
                          (Inr False, logging_error (Error ''Username already exists. Please choose a different username.'') w1)
                        else (Inl (Sqlite e), w1))
                   | (Inr _, w1) \<Rightarrow>
                       (case commit w1 of
                          (Inl e, w2) \<Rightarrow>
                            (if e = IntegrityError then
                               (Inr False, logging_error (Error ''Username already exists. Please choose a different username.'') w2)
                             else (Inl (Sqlite e), w2))
                        | (Inr _, w2) \<Rightarrow> (Inr True, w2))))))"

text \<open>\<open>login_user\<close>: the \<open>try\<close> catches every \<open>sqlite3.Error\<close>.\<close>

definition login_user :: "hashlib \<Rightarrow> pystr \<Rightarrow> pystr \<Rightarrow> world \<Rightarrow> (exn + bool) \<times> world" where
  "login_user H username password w =
     (case execute_select_user username w of
        (Inl e, w1) \<Rightarrow> (Inr False, logging_error (ErrorWith ''Error logging in user: '' e) w1)
      | (Inr None, w1) \<Rightarrow> (Inr False, w1)
      | (Inr (Some user), w1) \<Rightarrow>
          (let salt = take 64 (snd user);
               stored_password = drop 64 (snd user) in
           case encode_ascii salt of
             Inl x \<Rightarrow> (Inl x, w1)
           | Inr salt_bytes \<Rightarrow>
               (case decode_ascii (hexlify (pbkdf2_hmac H ''sha512'' (encode_utf8 password) salt_bytes 100000)) of
                  Inl x \<Rightarrow> (Inl x, w1)
                | Inr pwdhash \<Rightarrow> (Inr (pwdhash = stored_password), w1))))"

text \<open>\<open>ask_question\<close>: \<open>input\<close> prints the prompt and raises \<open>EOFError\<close> at the end of input.\<close>

definition ask_question :: "pystr \<Rightarrow> pystr \<Rightarrow> world \<Rightarrow> (exn + int) \<times> world" where
  "ask_question question correct_answer w =
     (let w1 = print_out (Prompt question) w in
      case stdin w1 of
        [] \<Rightarrow> (Inl EOFError, w1)
      | line # rest \<Rightarrow>
          (let user_answer = strip (lower line);
               w2 = w1\<lparr>stdin := rest\<rparr> in
           if user_answer = correct_answer
           then (Inr 1, print_out (Print ''Correct!'') w2)
           else (Inr 0, print_out (Print ''Incorrect!'') w2)))"

text \<open>The \<open>sum\<close> over the generator in \<open>play\<close>: the questions in order, the total so far.\<close>

fun ask_all :: "int \<Rightarrow> (pystr \<times> pystr) list \<Rightarrow> world \<Rightarrow> (exn + int) \<times> world" where
  "ask_all acc [] w = (Inr acc, w)"
| "ask_all acc ((question, answer) # rest) w =
     (case ask_question question answer w of
        (Inl x, w1) \<Rightarrow> (Inl x, w1)
      | (Inr r, w1) \<Rightarrow> ask_all (acc + r) rest w1)"

text \<open>
  \<open>play\<close> catches nothing. Its last line divides by \<open>len(questions)\<close>; the printed
  percentage is a float and is kept as the pair it is computed from.
\<close>

definition play :: "pystr \<Rightarrow> world \<Rightarrow> (exn + unit) \<times> world" where
  "play username w =
     (let w0 = print_out (Print ''Welcome to Digital_Odyssey!'') w in
      case execute_select_questions w0 of
        (Inl e, w1) \<Rightarrow> (Inl (Sqlite e), w1)
      | (Inr qs, w1) \<Rightarrow>
          (case ask_all 0 qs w1 of
             (Inl x, w2) \<Rightarrow> (Inl x, w2)
           | (Inr score, w2) \<Rightarrow>
               (case execute_insert_score username score w2 of
                  (Inl e, w3) \<Rightarrow> (Inl (Sqlite e), w3)
                | (Inr _, w3) \<Rightarrow>
                    (case commit w3 of
                       (Inl e, w4) \<Rightarrow> (Inl (Sqlite e), w4)
                     | (Inr _, w4) \<Rightarrow>
                         (let w5 = print_out (PrintScore score) w4 in
                          if length qs = 0 then (Inl ZeroDivisionError, w5)
                          else (Inr (), print_out (PrintPercent score (length qs)) w5))))))"

subsection \<open>The main block\<close>

text \<open>The seven questions the main block adds before it asks for a user name.\<close>

definition seed_questions :: "(pystr \<times> pystr) list" where
  "seed_questions =
     [(''What does CPU stand for? '', ''central processing unit''),
      (''What does GPU stand for? '', ''graphics processing unit''),
      (''What does RAM stand for? '', ''random access memory''),
      (''What does PSU stand for? '', ''power supply''),
      (''What does SSD stand for? '', ''solid state drive''),
      (''What does HDD stand for? '', ''hard disk drive''),
      (''What does USB stand for? '', ''universal serial bus'')]"

text \<open>The tables as \<open>create_tables\<close> leaves them on a new database file.\<close>

definition empty_tables :: tables where
  "empty_tables = \<lparr>questions = [], users = Map.empty, scores = []\<rparr>"

definition new_world :: world where
  "new_world =
     \<lparr>cur = empty_tables, disk = empty_tables, faults = [], errlog = [],
      stdin = [], stdout = []\<rparr>"

subsection \<open>Notions the statements use\<close>

text \<open>The validation constraints of \<open>register_user\<close>, in the words of the specification.\<close>

definition valid_input :: "pystr \<Rightarrow> pystr \<Rightarrow> bool" where
  "valid_input username password =
     (username \<noteq> [] \<and> password \<noteq> [] \<and> 3 \<le> length username \<and> 8 \<le> length password \<and>
      list_all isalnum_char username \<and> list_all isalnum_char password)"

text \<open>The salt a registration draws from the random bytes, and the key derived with it.\<close>

definition salt_of :: "hashlib \<Rightarrow> bytes \<Rightarrow> bytes" where
  "salt_of H rnd = hexlify (sha256 H rnd)"

definition derived_key :: "hashlib \<Rightarrow> pystr \<Rightarrow> bytes \<Rightarrow> bytes" where
  "derived_key H password salt = pbkdf2_hmac H ''sha512'' (encode_utf8 password) salt 100000"

text \<open>The canonical form of an answer: what \<open>ask_question\<close> makes of the line it reads.\<close>

definition canonical :: "pystr \<Rightarrow> bool" where
  "canonical a = (strip (lower a) = a)"

text \<open>How many of the questions the given input lines answer correctly, in order.\<close>

definition correct_answers :: "(pystr \<times> pystr) list \<Rightarrow> pystr list \<Rightarrow> int" where
  "correct_answers qs ls =
     int (length (filter (\<lambda>(qa, l). strip (lower l) = snd qa) (zip qs ls)))"

subsection \<open>PBKDF2 with HMAC, as hashlib computes it\<close>

text \<open>
  \<open>hashlib.pbkdf2_hmac\<close> is PBKDF2 of RFC 8018 with HMAC of RFC 2104 as its
  pseudorandom function. With the default \<open>dklen\<close> the derived key is the first block.
  The hash function \<open>h\<close> and its block size \<open>bs\<close> stay parameters (SHA-512 has blocks
  of 128 bytes).
\<close>

definition xor_bytes :: "bytes \<Rightarrow> bytes \<Rightarrow> bytes" where
  "xor_bytes a b = map2 (\<lambda>x y. char_of (xor (of_char x :: nat) (of_char y))) a b"

definition hmac_key :: "(bytes \<Rightarrow> bytes) \<Rightarrow> nat \<Rightarrow> bytes \<Rightarrow> bytes" where
  "hmac_key h bs k =
     (let k0 = (if bs < length k then h k else k) in k0 @ replicate (bs - length k0) (CHR 0x00))"

definition hmac :: "(bytes \<Rightarrow> bytes) \<Rightarrow> nat \<Rightarrow> bytes \<Rightarrow> bytes \<Rightarrow> bytes" where
  "hmac h bs k msg =
     (let kp = hmac_key h bs k;
          ipad = replicate (length kp) (CHR 0x36);
          opad = replicate (length kp) (CHR 0x5C)
      in h (xor_bytes kp opad @ h (xor_bytes kp ipad @ msg)))"

fun pbkdf2_rounds :: "(bytes \<Rightarrow> bytes) \<Rightarrow> nat \<Rightarrow> bytes \<Rightarrow> bytes \<Rightarrow> bytes" where
  "pbkdf2_rounds prf 0 u t = t"
| "pbkdf2_rounds prf (Suc n) u t = (let u' = prf u in pbkdf2_rounds prf n u' (xor_bytes t u'))"

definition pbkdf2 :: "(bytes \<Rightarrow> bytes) \<Rightarrow> nat \<Rightarrow> bytes \<Rightarrow> bytes \<Rightarrow> nat \<Rightarrow> bytes" where
  "pbkdf2 h bs password salt iterations =
     (let u1 = hmac h bs password (salt @ [CHR 0x00, CHR 0x00, CHR 0x00, CHR 0x01])
      in pbkdf2_rounds (hmac h bs password) (iterations - 1) u1 u1)"

text \<open>hashlib over two given hash functions, for SHA-256 and for SHA-512.\<close>

definition rfc_hashlib :: "(bytes \<Rightarrow> bytes) \<Rightarrow> (bytes \<Rightarrow> bytes) \<Rightarrow> hashlib" where
  "rfc_hashlib h256 h512 =
     \<lparr>sha256 = h256,
      pbkdf2_hmac = (\<lambda>name password salt iterations. pbkdf2 h512 128 password salt iterations)\<rparr>"

text \<open>
  A stand-in of the right width for a hash function, to run the model on concrete
  inputs: the first \<open>n\<close> bytes of the input, padded with zero bytes.
\<close>

definition stub_hash :: "nat \<Rightarrow> bytes \<Rightarrow> bytes" where
  "stub_hash n b = take n (b @ replicate n (CHR 0x00))"

definition demo_hashlib :: hashlib where
  "demo_hashlib = rfc_hashlib (stub_hash 32) (stub_hash 64)"

subsection \<open>login_user on every string\<close>

text \<open>
  The strings above stop at code point 255. For \<open>login_user\<close> the rest of \<open>str\<close>
  matters: a lone surrogate (U+D800 to U+DFFF) has no UTF-8 encoding, and the
  \<open>UnicodeEncodeError\<close> it raises, in \<open>password.encode("utf-8")\<close> and already when
  sqlite3 binds the user name, is not a \<open>sqlite3.Error\<close>. Here a \<open>str\<close> is the list
  of its code points, and the store is the users table with the answers of the storage
  layer and the log.
\<close>

type_synonym ustr = "nat list"

definition is_surrogate :: "nat \<Rightarrow> bool" where
  "is_surrogate c = (55296 \<le> c \<and> c \<le> 57343)"

text \<open>UTF-8, one to four bytes a code point.\<close>

definition utf8_code_point :: "nat \<Rightarrow> bytes" where
  "utf8_code_point n =
     (if n < 128 then [char_of n]
      else if n < 2048 then [char_of (192 + n div 64), char_of (128 + n mod 64)]
      else if n < 65536 then
        [char_of (224 + n div 4096), char_of (128 + n div 64 mod 64), char_of (128 + n mod 64)]
      else
        [char_of (240 + n div 262144), char_of (128 + n div 4096 mod 64),
         char_of (128 + n div 64 mod 64), char_of (128 + n mod 64)])"

definition str_encode_utf8 :: "ustr \<Rightarrow> exn + bytes" where
  "str_encode_utf8 s =
     (if list_ex is_surrogate s then Inl UnicodeEncodeError
      else Inr (concat (map utf8_code_point s)))"

definition str_encode_ascii :: "ustr \<Rightarrow> exn + bytes" where
  "str_encode_ascii s =
     (if list_all (\<lambda>c. c < 128) s then Inr (map char_of s) else Inl UnicodeEncodeError)"

definition bytes_decode_ascii :: "bytes \<Rightarrow> exn + ustr" where
  "bytes_decode_ascii b =
     (if list_all is_ascii b then Inr (map of_char b) else Inl UnicodeDecodeError)"

record credential_store =
  stored_users :: "ustr \<rightharpoonup> ustr"
  store_faults :: "sqlite_error option list"
  store_errlog :: "log_record list"

definition next_fault :: "sqlite_error option list \<Rightarrow> sqlite_error option" where
  "next_fault fs = (case fs of [] \<Rightarrow> None | f # _ \<Rightarrow> f)"

text \<open>
  \<open>login_user\<close> as above, on code points: binding the user name comes first and
  raises before the statement runs; \<open>password.encode\<close> is evaluated before
  \<open>salt.encode\<close>.
\<close>

definition login_user_str :: "hashlib \<Rightarrow> ustr \<Rightarrow> ustr \<Rightarrow> credential_store \<Rightarrow> (exn + bool) \<times> credential_store" where
  "login_user_str H username password s =
     (case str_encode_utf8 username of
        Inl x \<Rightarrow> (Inl x, s)
      | Inr _ \<Rightarrow>
          (let s1 = s\<lparr>store_faults := tl (store_faults s)\<rparr> in
           case next_fault (store_faults s) of
             Some e \<Rightarrow>
               (Inr False, s1\<lparr>store_errlog := store_errlog s1 @ [ErrorWith ''Error logging in user: '' e]\<rparr>)
           | None \<Rightarrow>
               (case stored_users s1 username of
                  None \<Rightarrow> (Inr False, s1)
                | Some credential \<Rightarrow>
                    (let salt = take 64 credential;
                         stored_password = drop 64 credential in
                     case str_encode_utf8 password of
                       Inl x \<Rightarrow> (Inl x, s1)
                     | Inr password_bytes \<Rightarrow>
                         (case str_encode_ascii salt of
                            Inl x \<Rightarrow> (Inl x, s1)
                          | Inr salt_bytes \<Rightarrow>
                              (case bytes_decode_ascii (hexlify (pbkdf2_hmac H ''sha512'' password_bytes salt_bytes 100000)) of
                                 Inl x \<Rightarrow> (Inl x, s1)
                               | Inr pwdhash \<Rightarrow> (Inr (pwdhash = stored_password), s1)))))))"

text \<open>The strings and worlds of the model above, as code points.\<close>

definition wide :: "string \<Rightarrow> ustr" where
  "wide s = map of_char s"



section \<open>Facts about the encodings\<close>

lemma length_hexlify: "length (hexlify b) = 2 * length b"
  by (induction b) (simp_all add: hexlify_def hex_byte_def)

lemma of_char_hexdigit: "n < 16 \<Longrightarrow> (of_char (hexdigit n) :: nat) = (if n < 10 then 48 + n else 87 + n)"
  by (simp add: hexdigit_def)

lemma hexdigit_hex: "n < 16 \<Longrightarrow> is_hex_char (hexdigit n)"
  by (simp add: is_hex_char_def of_char_hexdigit)

lemma hex_char_ascii: "is_hex_char c \<Longrightarrow> is_ascii c"
  by (auto simp add: is_hex_char_def is_ascii_def Let_def)

lemma hex_byte_hex: "list_all is_hex_char (hex_byte c)"
proof -
  have "(of_char c :: nat) < 256" by simp
  then have "(of_char c :: nat) div 16 < 16" by arith
  moreover have "(of_char c :: nat) mod 16 < 16" by simp
  ultimately show ?thesis by (simp add: hex_byte_def hexdigit_hex)
qed

lemma hexlify_hex: "list_all is_hex_char (hexlify b)"
  by (induction b) (simp_all add: hexlify_def hex_byte_hex)

lemma hexlify_ascii: "list_all is_ascii (hexlify b)"
  using hexlify_hex [of b] by (simp add: list_all_iff hex_char_ascii)

lemma encode_ascii_hexlify: "encode_ascii (hexlify b) = Inr (hexlify b)"
  by (simp add: encode_ascii_def hexlify_ascii)

lemma decode_ascii_hexlify2: "decode_ascii (hexlify a @ hexlify b) = Inr (hexlify a @ hexlify b)"
  by (simp add: decode_ascii_def hexlify_ascii)

lemma decode_ascii_hexlify: "decode_ascii (hexlify b) = Inr (hexlify b)"
  by (simp add: decode_ascii_def hexlify_ascii)

lemma hexdigit_inj:
  assumes "m < 16" "n < 16" "hexdigit m = hexdigit n"
  shows "m = n"
proof -
  have "(if m < 10 then 48 + m else 87 + m) = (of_char (hexdigit m) :: nat)"
    using assms(1) by (simp only: of_char_hexdigit)
  also have "\<dots> = of_char (hexdigit n)"
    by (simp only: assms(3))
  also have "\<dots> = (if n < 10 then 48 + n else 87 + n)"
    using assms(2) by (simp only: of_char_hexdigit)
  finally show ?thesis
    using assms(1,2) by (simp split: if_splits)
qed

lemma hex_byte_inj:
  assumes "hex_byte c = hex_byte d"
  shows "c = d"
proof -
  have "(of_char c :: nat) < 256" "(of_char d :: nat) < 256" by simp_all
  then have c: "(of_char c :: nat) div 16 < 16" and d: "(of_char d :: nat) div 16 < 16"
    by arith+
  have c': "(of_char c :: nat) mod 16 < 16" and d': "(of_char d :: nat) mod 16 < 16"
    by simp_all
  from assms have e: "hexdigit ((of_char c :: nat) div 16) = hexdigit (of_char d div 16)"
    and e': "hexdigit ((of_char c :: nat) mod 16) = hexdigit (of_char d mod 16)"
    by (simp_all add: hex_byte_def)
  have "(of_char c :: nat) div 16 = of_char d div 16"
    by (rule hexdigit_inj [OF c d e])
  moreover have "(of_char c :: nat) mod 16 = of_char d mod 16"
    by (rule hexdigit_inj [OF c' d' e'])
  ultimately have "(of_char c :: nat) = of_char d"
    by (metis div_mult_mod_eq)
  then show ?thesis by simp
qed

lemma hexlify_inj: "hexlify a = hexlify b \<Longrightarrow> a = b"
proof (induction a arbitrary: b)
  case Nil
  then show ?case using length_hexlify [of b] by (cases b) (simp_all add: hexlify_def hex_byte_def)
next
  case (Cons x xs)
  then show ?case
  proof (cases b)
    case Nil
    with Cons.prems show ?thesis by (simp add: hexlify_def hex_byte_def)
  next
    case (Cons y ys)
    with Cons.prems have "hex_byte x @ hexlify xs = hex_byte y @ hexlify ys"
      by (simp add: hexlify_def)
    moreover have "length (hex_byte x) = length (hex_byte y)" by (simp add: hex_byte_def)
    ultimately have "hex_byte x = hex_byte y" "hexlify xs = hexlify ys" by simp_all
    with Cons.IH Cons show ?thesis by (simp add: hex_byte_inj)
  qed
qed

section \<open>Registration and login\<close>

lemma storage_call_quiet: "faults w = [] \<Longrightarrow> storage_call w = (None, w)"
  by (simp add: storage_call_def)

lemma valid_input_checks:
  "valid_input username password \<Longrightarrow>
     username \<noteq> [] \<and> password \<noteq> [] \<and> \<not> length username < 3 \<and> \<not> length password < 8 \<and>
     isalnum username \<and> isalnum password"
  by (simp add: valid_input_def isalnum_def)

text \<open>What a registration that passes the validation does, by the answer of the storage layer.\<close>

lemma register_user_valid:
  assumes "valid_input username password"
  shows "register_user H rnd username password w =
     (case execute_insert_user username (salt_of H rnd @ hexlify (derived_key H password (salt_of H rnd))) w of
        (Inl e, w1) \<Rightarrow>
          (if e = IntegrityError then
             (Inr False, logging_error (Error ''Username already exists. Please choose a different username.'') w1)
           else (Inl (Sqlite e), w1))
      | (Inr _, w1) \<Rightarrow>
          (case commit w1 of
             (Inl e, w2) \<Rightarrow>
               (if e = IntegrityError then
                  (Inr False, logging_error (Error ''Username already exists. Please choose a different username.'') w2)
                else (Inl (Sqlite e), w2))
           | (Inr _, w2) \<Rightarrow> (Inr True, w2)))"
  using valid_input_checks [OF assms]
  by (simp add: register_user_def salt_of_def derived_key_def encode_ascii_hexlify
      decode_ascii_hexlify2 Let_def)

lemma register_user_fresh:
  assumes "valid_input username password" "users (cur w) username = None" "faults w = []"
  shows "register_user H rnd username password w =
     (Inr True,
      w\<lparr>cur := (cur w)\<lparr>users := (users (cur w))(username \<mapsto> salt_of H rnd @ hexlify (derived_key H password (salt_of H rnd)))\<rparr>,
        disk := (cur w)\<lparr>users := (users (cur w))(username \<mapsto> salt_of H rnd @ hexlify (derived_key H password (salt_of H rnd)))\<rparr>\<rparr>)"
  using assms(2,3)
  by (simp add: register_user_valid [OF assms(1)] execute_insert_user_def commit_def
      storage_call_def)

lemma register_user_taken:
  assumes "valid_input username password" "users (cur w) username = Some r" "faults w = []"
  shows "register_user H rnd username password w =
     (Inr False, logging_error (Error ''Username already exists. Please choose a different username.'') w)"
  using assms(2,3)
  by (simp add: register_user_valid [OF assms(1)] execute_insert_user_def storage_call_def)

lemma login_user_quiet:
  assumes "faults w = []"
  shows "login_user H username password w =
     (case users (cur w) username of
        None \<Rightarrow> (Inr False, w)
      | Some r \<Rightarrow>
          (if list_all is_ascii (take 64 r)
           then (Inr (hexlify (derived_key H password (take 64 r)) = drop 64 r), w)
           else (Inl UnicodeEncodeError, w)))"
  using assms
  by (simp add: login_user_def execute_select_user_def storage_call_def encode_ascii_def
      decode_ascii_hexlify derived_key_def Let_def split: option.splits)

lemma length_salt_of: "length (sha256 H rnd) = 32 \<Longrightarrow> length (salt_of H rnd) = 64"
  by (simp add: salt_of_def length_hexlify)

lemma salt_of_ascii: "list_all is_ascii (salt_of H rnd)"
  by (simp add: salt_of_def hexlify_ascii)

text \<open>What a registration that returned True has done.\<close>

lemma register_user_True_valid:
  assumes "fst (register_user H rnd username password w) = Inr True"
  shows "valid_input username password"
proof (rule ccontr)
  assume "\<not> valid_input username password"
  then have "fst (register_user H rnd username password w) = Inr False"
    by (auto simp add: register_user_def valid_input_def isalnum_def)
  with assms show False by simp
qed

lemma register_user_True_stored:
  assumes "fst (register_user H rnd username password w) = Inr True"
  shows "users (cur (snd (register_user H rnd username password w))) username =
           Some (salt_of H rnd @ hexlify (derived_key H password (salt_of H rnd))) \<and>
         disk (snd (register_user H rnd username password w)) =
           cur (snd (register_user H rnd username password w)) \<and>
         users (cur w) username = None"
  using assms
  by (auto simp add: register_user_valid [OF register_user_True_valid [OF assms]]
      execute_insert_user_def commit_def storage_call_def
      split: list.splits option.splits if_splits)

lemma register_user_True_others:
  assumes "fst (register_user H rnd username password w) = Inr True" "other \<noteq> username"
  shows "users (cur (snd (register_user H rnd username password w))) other = users (cur w) other"
  using assms
  by (auto simp add: register_user_valid [OF register_user_True_valid [OF assms(1)]]
      execute_insert_user_def commit_def storage_call_def
      split: list.splits option.splits if_splits)


lemma login_user_True_iff:
  "fst (login_user H username password w) = Inr True \<longleftrightarrow>
     fst (storage_call w) = None \<and>
     (\<exists>r. users (cur w) username = Some r \<and> list_all is_ascii (take 64 r) \<and>
          hexlify (pbkdf2_hmac H ''sha512'' (encode_utf8 password) (take 64 r) 100000) = drop 64 r)"
  by (auto simp add: login_user_def execute_select_user_def storage_call_def encode_ascii_def
      decode_ascii_hexlify Let_def split: option.splits list.splits)

lemma login_user_absent:
  "users (cur w) username = None \<Longrightarrow> fst (login_user H username password w) = Inr False"
  by (auto simp add: login_user_def execute_select_user_def storage_call_def
      split: option.splits list.splits)

section \<open>The model of hashlib\<close>

lemma length_stub_hash: "length (stub_hash n b) = n"
  by (simp add: stub_hash_def)

lemma length_hmac: "(\<And>b. length (h b) = k) \<Longrightarrow> length (hmac h bs key msg) = k"
  by (simp add: hmac_def Let_def)

lemma length_pbkdf2_rounds:
  "length u = k \<Longrightarrow> length t = k \<Longrightarrow> (\<And>x. length (prf x) = k) \<Longrightarrow>
   length (pbkdf2_rounds prf n u t) = k"
  by (induction n arbitrary: u t) (simp_all add: Let_def xor_bytes_def)

lemma length_pbkdf2: "(\<And>b. length (h b) = k) \<Longrightarrow> length (pbkdf2 h bs p s n) = k"
  by (simp add: pbkdf2_def Let_def length_pbkdf2_rounds length_hmac)

lemma demo_hashlib_ok: "hashlib_ok demo_hashlib"
  by (simp add: hashlib_ok_def demo_hashlib_def rfc_hashlib_def length_stub_hash length_pbkdf2)







section \<open>Playing\<close>

lemma print_out_fields:
  "cur (print_out e w) = cur w" "disk (print_out e w) = disk w"
  "faults (print_out e w) = faults w" "stdin (print_out e w) = stdin w"
  "errlog (print_out e w) = errlog w"
  by (simp_all add: print_out_def)

lemma correct_answers_Cons:
  "correct_answers ((q, a) # qs) (l # ls) =
     (if strip (lower l) = a then 1 else 0) + correct_answers qs ls"
  by (simp add: correct_answers_def)

lemma correct_answers_bounds: "0 \<le> correct_answers qs ls \<and> correct_answers qs ls \<le> int (length qs)"
proof -
  have "length (filter (\<lambda>(qa, l). strip (lower l) = snd qa) (zip qs ls)) \<le> length (zip qs ls)"
    by (rule length_filter_le)
  then show ?thesis by (simp add: correct_answers_def)
qed

lemma ask_all_enough_input:
  "length qs \<le> length (stdin w) \<Longrightarrow>
   fst (ask_all acc qs w) = Inr (acc + correct_answers qs (stdin w)) \<and>
   cur (snd (ask_all acc qs w)) = cur w \<and>
   disk (snd (ask_all acc qs w)) = disk w \<and>
   faults (snd (ask_all acc qs w)) = faults w \<and>
   errlog (snd (ask_all acc qs w)) = errlog w"
proof (induction qs arbitrary: acc w)
  case Nil
  then show ?case by (simp add: correct_answers_def)
next
  case (Cons qa qs)
  obtain q a where qa: "qa = (q, a)" by (cases qa)
  from Cons.prems obtain l ls where ls: "stdin w = l # ls" by (cases "stdin w") simp_all
  let ?r = "if strip (lower l) = a then 1 else 0 :: int"
  let ?w1 = "print_out (Print (if strip (lower l) = a then ''Correct!'' else ''Incorrect!''))
               ((print_out (Prompt q) w)\<lparr>stdin := ls\<rparr>)"
  have aq: "ask_question q a w = (Inr ?r, ?w1)"
    using ls by (simp add: ask_question_def Let_def print_out_fields)
  have w1: "stdin ?w1 = ls" "cur ?w1 = cur w" "disk ?w1 = disk w" "faults ?w1 = faults w"
    "errlog ?w1 = errlog w"
    by (simp_all add: print_out_def)
  have len: "length qs \<le> length (stdin ?w1)"
    using Cons.prems ls w1(1) by simp
  note ih = Cons.IH [OF len, of "acc + ?r"]
  show ?case
  proof (cases "strip (lower l) = a")
    case True
    with ih w1 show ?thesis
      by (simp add: aq ls qa correct_answers_Cons)
  next
    case False
    with ih w1 show ?thesis
      by (simp add: aq ls qa correct_answers_Cons)
  qed
qed

lemma lower_Paris: "strip (lower ''Paris'') = ''paris''"
  by code_simp

lemma seed_canonical: "list_all (\<lambda>qa. canonical (snd qa)) seed_questions"
  by (simp add: seed_questions_def canonical_def strip_def lower_def lower_char_def
      isspace_char_def)

text \<open>
  Lower-casing and trimming a line gives a string that lower-casing and trimming leave as
  it is, so an answer that is not of that form equals no normalised input.
\<close>

lemma of_char_lower_char:
  "(of_char (lower_char c) :: nat) =
     (if (65 \<le> (of_char c :: nat) \<and> (of_char c :: nat) \<le> 90) \<or>
         (192 \<le> (of_char c :: nat) \<and> (of_char c :: nat) \<le> 214) \<or>
         (216 \<le> (of_char c :: nat) \<and> (of_char c :: nat) \<le> 222)
      then of_char c + 32 else of_char c)"
  by (simp add: lower_char_def Let_def)

lemma lower_char_idem: "lower_char (lower_char c) = lower_char c"
proof -
  have "(of_char (lower_char (lower_char c)) :: nat) = of_char (lower_char c)"
    by (simp add: of_char_lower_char)
  then show ?thesis by simp
qed

lemma isspace_lower_char: "isspace_char (lower_char c) = isspace_char c"
  by (simp add: isspace_char_def Let_def of_char_lower_char)

lemma lower_idem: "lower (lower s) = lower s"
  by (simp add: lower_def lower_char_idem)

lemma dropWhile_lower: "dropWhile isspace_char (lower s) = lower (dropWhile isspace_char s)"
  by (induction s) (simp_all add: lower_def isspace_lower_char)

lemma rev_lower: "rev (lower s) = lower (rev s)"
  by (simp add: lower_def rev_map)

lemma strip_lower: "strip (lower s) = lower (strip s)"
  by (simp add: strip_def dropWhile_lower rev_lower)

lemma dropWhile_fixed: "xs = [] \<or> \<not> P (hd xs) \<Longrightarrow> dropWhile P xs = xs"
  by (cases xs) auto

lemma strip_idem: "strip (strip s) = strip s"
proof -
  let ?P = isspace_char
  let ?t = "dropWhile ?P s"
  let ?u = "rev (dropWhile ?P (rev ?t))"
  have t: "?t = [] \<or> \<not> ?P (hd ?t)"
    using hd_dropWhile [of ?P s] by blast
  have "rev ?t = takeWhile ?P (rev ?t) @ dropWhile ?P (rev ?t)"
    by simp
  then have "?t = ?u @ rev (takeWhile ?P (rev ?t))"
    by (metis rev_append rev_rev_ident)
  then have "?u = [] \<or> hd ?u = hd ?t"
    by (metis hd_append2)
  moreover have "?t = [] \<Longrightarrow> ?u = []"
    by (simp only: rev.simps(1) dropWhile.simps(1))
  ultimately have u: "?u = [] \<or> \<not> ?P (hd ?u)"
    using t by metis
  have 1: "dropWhile ?P ?u = ?u"
    using u by (rule dropWhile_fixed [of ?u ?P])
  have "dropWhile ?P (rev ?t) = [] \<or> \<not> ?P (hd (dropWhile ?P (rev ?t)))"
    using hd_dropWhile [of ?P "rev ?t"] by blast
  then have 2: "dropWhile ?P (dropWhile ?P (rev ?t)) = dropWhile ?P (rev ?t)"
    by (rule dropWhile_fixed [of "dropWhile ?P (rev ?t)" ?P])
  show ?thesis
    unfolding strip_def by (simp only: 1 rev_rev_ident 2)
qed

lemma canonical_normal_form: "canonical (strip (lower s))"
  by (simp add: canonical_def strip_lower lower_idem strip_idem)

lemma non_canonical_answer_never_matches:
  assumes "\<not> canonical answer"
  shows "fst (ask_question question answer w) \<noteq> Inr 1"
proof (cases "stdin w")
  case Nil
  then show ?thesis
    by (simp add: ask_question_def Let_def print_out_def)
next
  case (Cons line rest)
  have "strip (lower line) \<noteq> answer"
    using assms canonical_normal_form [of line] by auto
  with Cons show ?thesis
    by (simp add: ask_question_def Let_def print_out_def)
qed

section \<open>login on every string\<close>









lemma bytes_decode_ascii_eq: "bytes_decode_ascii b = map_sum id wide (decode_ascii b)"
  by (simp add: bytes_decode_ascii_def decode_ascii_def wide_def)










lemma login_user_str_password_surrogate:
  "\<not> list_ex is_surrogate username \<Longrightarrow> next_fault (store_faults s) = None \<Longrightarrow>
   stored_users s username = Some r \<Longrightarrow> list_ex is_surrogate password \<Longrightarrow>
   fst (login_user_str H username password s) = Inl UnicodeEncodeError"
  by (simp add: login_user_str_def str_encode_utf8_def Let_def)




section \<open>The claims\<close>

text \<open>
  C1. For a user name and a password that satisfy the validation constraints, a user
  name that is not in the credential store, and a storage layer that does not fail,
  \<open>register_user\<close> returns True and \<open>login_user\<close> with the same credentials,
  called next, returns True. SHA-256 returns its 32 bytes.
\<close>

theorem register_then_login:
  assumes "valid_input username password"
    and "users (cur w) username = None"
    and "faults w = []"
    and "length (sha256 H rnd) = 32"
  shows "fst (register_user H rnd username password w) = Inr True \<and>
         fst (login_user H username password (snd (register_user H rnd username password w))) = Inr True"
  using assms(3) length_salt_of [OF assms(4)]
  by (simp add: register_user_fresh [OF assms(1,2,3)] login_user_quiet salt_of_ascii)


theorem register_then_login_witness:
  "valid_input ''alice'' ''password1'' \<and>
   users (cur new_world) ''alice'' = None \<and>
   faults new_world = [] \<and>
   length (sha256 demo_hashlib (replicate 60 (CHR 0x2A))) = 32 \<and>
   fst (register_user demo_hashlib (replicate 60 (CHR 0x2A)) ''alice'' ''password1'' new_world)
     = Inr True \<and>
   fst (login_user demo_hashlib ''alice'' ''password1''
          (snd (register_user demo_hashlib (replicate 60 (CHR 0x2A)) ''alice'' ''password1''
                  new_world)))
     = Inr True"
proof -
  have v: "valid_input ''alice'' ''password1''"
    by (simp add: valid_input_def isalnum_char_def)
  have u: "users (cur new_world) ''alice'' = None"
    by (simp add: new_world_def empty_tables_def)
  have f: "faults new_world = []"
    by (simp add: new_world_def)
  have l: "length (sha256 demo_hashlib (replicate 60 (CHR 0x2A))) = 32"
    by (simp add: demo_hashlib_def rfc_hashlib_def stub_hash_def)
  show ?thesis
    using v u f l register_then_login [OF v u f l] by simp
qed




text \<open>
  C3. When the user name or the password is empty, the user name is shorter than 3, the
  password is shorter than 8, or one of them has a character that is not alphanumeric,
  \<open>register_user\<close> returns False and logs one error; nothing else of the world
  changes: the tables as seen and as stored are the ones before the call, and no storage
  call was made.
\<close>

theorem register_user_rejects_invalid:
  assumes "username = [] \<or> password = [] \<or> length username < 3 \<or> length password < 8 \<or>
           list_ex (\<lambda>c. \<not> isalnum_char c) username \<or> list_ex (\<lambda>c. \<not> isalnum_char c) password"
  shows "\<exists>m. register_user H rnd username password w = (Inr False, w\<lparr>errlog := errlog w @ [m]\<rparr>)"
  using assms
  by (auto simp add: register_user_def logging_error_def isalnum_def list_ex_iff list_all_iff)

theorem register_user_rejects_invalid_witness:
  "list_ex (\<lambda>c. \<not> isalnum_char c) ''valid user'' \<and>
   length ''ab'' < 3 \<and> length ''short1'' < 8 \<and>
   (\<exists>m. register_user demo_hashlib (replicate 60 (CHR 0x2A)) ''valid user'' ''password1'' new_world
          = (Inr False, new_world\<lparr>errlog := errlog new_world @ [m]\<rparr>)) \<and>
   (\<exists>m. register_user demo_hashlib (replicate 60 (CHR 0x2A)) ''ab'' ''longenough1'' new_world
          = (Inr False, new_world\<lparr>errlog := errlog new_world @ [m]\<rparr>)) \<and>
   (\<exists>m. register_user demo_hashlib (replicate 60 (CHR 0x2A)) ''validuser'' ''short1'' new_world
          = (Inr False, new_world\<lparr>errlog := errlog new_world @ [m]\<rparr>))"
proof -
  have a: "list_ex (\<lambda>c. \<not> isalnum_char c) ''valid user''"
    by (simp add: isalnum_char_def)
  have b: "length ''ab'' < 3" and c: "length ''short1'' < 8"
    by simp_all
  show ?thesis
    using a b c
      register_user_rejects_invalid [of "''valid user''" "''password1''" demo_hashlib
        "replicate 60 (CHR 0x2A)" new_world]
      register_user_rejects_invalid [of "''ab''" "''longenough1''" demo_hashlib
        "replicate 60 (CHR 0x2A)" new_world]
      register_user_rejects_invalid [of "''validuser''" "''short1''" demo_hashlib
        "replicate 60 (CHR 0x2A)" new_world]
    by blast
qed

text \<open>
  C4. For a valid user name that is not yet in the store, two valid passwords and a
  storage layer that does not fail: the first \<open>register_user\<close> returns True, the
  second, with the same user name, returns False, and the tables after the second call
  are the tables after the first, so the record of the user is the one the first call
  wrote.
\<close>

theorem register_twice:
  assumes "valid_input username password1"
    and "valid_input username password2"
    and "users (cur w) username = None"
    and "faults w = []"
  shows "fst (register_user H rnd1 username password1 w) = Inr True \<and>
         fst (register_user H rnd2 username password2
                (snd (register_user H rnd1 username password1 w))) = Inr False \<and>
         users (cur (snd (register_user H rnd1 username password1 w))) username =
           Some (salt_of H rnd1 @ hexlify (derived_key H password1 (salt_of H rnd1))) \<and>
         cur (snd (register_user H rnd2 username password2
                (snd (register_user H rnd1 username password1 w)))) =
           cur (snd (register_user H rnd1 username password1 w)) \<and>
         disk (snd (register_user H rnd2 username password2
                (snd (register_user H rnd1 username password1 w)))) =
           disk (snd (register_user H rnd1 username password1 w))"
proof -
  let ?r = "salt_of H rnd1 @ hexlify (derived_key H password1 (salt_of H rnd1))"
  let ?w1 = "snd (register_user H rnd1 username password1 w)"
  have first: "register_user H rnd1 username password1 w =
      (Inr True, w\<lparr>cur := (cur w)\<lparr>users := (users (cur w))(username \<mapsto> ?r)\<rparr>,
                   disk := (cur w)\<lparr>users := (users (cur w))(username \<mapsto> ?r)\<rparr>\<rparr>)"
    by (rule register_user_fresh [OF assms(1,3,4)])
  have u: "users (cur ?w1) username = Some ?r" and f: "faults ?w1 = []"
    using assms(4) by (simp_all add: first)
  have second: "register_user H rnd2 username password2 ?w1 =
      (Inr False, logging_error (Error ''Username already exists. Please choose a different username.'') ?w1)"
    by (rule register_user_taken [OF assms(2) u f])
  show ?thesis
    using u by (simp add: second logging_error_def) (simp add: first)
qed

theorem register_twice_witness:
  "valid_input ''alice'' ''password1'' \<and> valid_input ''alice'' ''password2'' \<and>
   users (cur new_world) ''alice'' = None \<and> faults new_world = [] \<and>
   fst (register_user demo_hashlib (replicate 60 (CHR 0x01)) ''alice'' ''password1'' new_world)
     = Inr True \<and>
   fst (register_user demo_hashlib (replicate 60 (CHR 0x02)) ''alice'' ''password2''
          (snd (register_user demo_hashlib (replicate 60 (CHR 0x01)) ''alice'' ''password1''
                  new_world)))
     = Inr False \<and>
   cur (snd (register_user demo_hashlib (replicate 60 (CHR 0x02)) ''alice'' ''password2''
          (snd (register_user demo_hashlib (replicate 60 (CHR 0x01)) ''alice'' ''password1''
                  new_world)))) =
     cur (snd (register_user demo_hashlib (replicate 60 (CHR 0x01)) ''alice'' ''password1''
                  new_world))"
proof -
  have v1: "valid_input ''alice'' ''password1''" and v2: "valid_input ''alice'' ''password2''"
    by (simp_all add: valid_input_def isalnum_char_def)
  have u: "users (cur new_world) ''alice'' = None"
    by (simp add: new_world_def empty_tables_def)
  have f: "faults new_world = []"
    by (simp add: new_world_def)
  show ?thesis
    using v1 v2 u f
      register_twice [OF v1 v2 u f, of demo_hashlib "replicate 60 (CHR 0x01)"
        "replicate 60 (CHR 0x02)"]
    by simp
qed

text \<open>
  C5 fails for \<open>register_user\<close>. When the storage layer answers the insert with
  a \<open>sqlite3.Error\<close> other than \<open>IntegrityError\<close>, \<open>register_user\<close>
  raises it, with nothing logged, where \<open>login_user\<close>, on the same failure of its
  lookup, logs it and returns False.
\<close>

theorem register_user_storage_failure:
  assumes "valid_input username password"
    and "faults w = Some e # fs"
    and "e \<noteq> IntegrityError"
  shows "register_user H rnd username password w = (Inl (Sqlite e), w\<lparr>faults := fs\<rparr>) \<and>
         login_user H username password w =
           (Inr False, logging_error (ErrorWith ''Error logging in user: '' e) (w\<lparr>faults := fs\<rparr>))"
  using assms(2,3)
  by (simp add: register_user_valid [OF assms(1)] execute_insert_user_def login_user_def
      execute_select_user_def storage_call_def)

theorem register_user_storage_failure_witness:
  "valid_input ''alice'' ''password1'' \<and>
   fst (register_user demo_hashlib (replicate 60 (CHR 0x2A)) ''alice'' ''password1''
          (new_world\<lparr>faults := [Some OperationalError]\<rparr>))
     = Inl (Sqlite OperationalError) \<and>
   errlog (snd (register_user demo_hashlib (replicate 60 (CHR 0x2A)) ''alice'' ''password1''
          (new_world\<lparr>faults := [Some OperationalError]\<rparr>))) = [] \<and>
   fst (login_user demo_hashlib ''alice'' ''password1''
          (new_world\<lparr>faults := [Some OperationalError]\<rparr>))
     = Inr False"
proof -
  have v: "valid_input ''alice'' ''password1''"
    by (simp add: valid_input_def isalnum_char_def)
  have f: "faults (new_world\<lparr>faults := [Some OperationalError]\<rparr>) = [Some OperationalError]"
    by simp
  have e: "OperationalError \<noteq> IntegrityError"
    by simp
  show ?thesis
    using v register_user_storage_failure [OF v f e, of demo_hashlib "replicate 60 (CHR 0x2A)"]
    by (simp add: new_world_def)
qed

text \<open>
  C6. After a registration that returned True, the record stored for the user is the
  64 hex characters of the salt followed at once by the 128 hex characters of the
  PBKDF2-HMAC-SHA512 key derived with that salt: 192 hex characters, with nothing
  between the two. SHA-256 returns 32 bytes and PBKDF2 with SHA-512 returns 64.
\<close>

theorem credential_record_format:
  assumes "fst (register_user H rnd username password w) = Inr True"
    and "hashlib_ok H"
  shows "\<exists>salt key.
           users (cur (snd (register_user H rnd username password w))) username = Some (salt @ key) \<and>
           salt = hexlify (sha256 H rnd) \<and>
           key = hexlify (pbkdf2_hmac H ''sha512'' (encode_utf8 password) salt 100000) \<and>
           length salt = 64 \<and> length key = 128 \<and> length (salt @ key) = 192 \<and>
           list_all is_hex_char (salt @ key)"
  using register_user_True_stored [OF assms(1)] assms(2)
  by (simp add: salt_of_def derived_key_def hashlib_ok_def length_hexlify hexlify_hex)

theorem credential_record_format_witness:
  "fst (register_user demo_hashlib (replicate 60 (CHR 0x2A)) ''alice'' ''password1'' new_world)
     = Inr True \<and>
   hashlib_ok demo_hashlib \<and>
   (\<exists>salt key.
      users (cur (snd (register_user demo_hashlib (replicate 60 (CHR 0x2A)) ''alice''
                         ''password1'' new_world))) ''alice'' = Some (salt @ key) \<and>
      salt = hexlify (replicate 32 (CHR 0x2A)) \<and>
      length salt = 64 \<and> length key = 128 \<and> length (salt @ key) = 192 \<and>
      list_all is_hex_char (salt @ key))"
proof -
  have v: "valid_input ''alice'' ''password1''"
    by (simp add: valid_input_def isalnum_char_def)
  have u: "users (cur new_world) ''alice'' = None"
    by (simp add: new_world_def empty_tables_def)
  have f: "faults new_world = []"
    by (simp add: new_world_def)
  have r: "fst (register_user demo_hashlib (replicate 60 (CHR 0x2A)) ''alice'' ''password1''
                  new_world) = Inr True"
    by (simp add: register_user_fresh [OF v u f])
  have s: "sha256 demo_hashlib (replicate 60 (CHR 0x2A)) = replicate 32 (CHR 0x2A)"
    by (simp add: demo_hashlib_def rfc_hashlib_def stub_hash_def)
  show ?thesis
    using r demo_hashlib_ok credential_record_format [OF r demo_hashlib_ok] s
    by auto
qed

text \<open>
  C7. For a play session that runs to its end (the storage layer does not fail and
  there is an input line for every question), \<open>play\<close> appends exactly one row to the
  scores table, the user name with the number of questions whose answer the input
  matched; the number lies between 0 and the number of questions, and the row is
  committed.
\<close>

theorem play_records_score:
  assumes "faults w = []"
    and "length (questions (cur w)) \<le> length (stdin w)"
  shows "scores (cur (snd (play username w))) =
           scores (cur w) @ [(username, correct_answers (questions (cur w)) (stdin w))] \<and>
         scores (disk (snd (play username w))) = scores (cur (snd (play username w))) \<and>
         0 \<le> correct_answers (questions (cur w)) (stdin w) \<and>
         correct_answers (questions (cur w)) (stdin w) \<le> int (length (questions (cur w)))"
proof -
  let ?w0 = "print_out (Print ''Welcome to Digital_Odyssey!'') w"
  let ?qs = "questions (cur w)"
  let ?k = "correct_answers ?qs (stdin w)"
  have w0: "faults ?w0 = []" "cur ?w0 = cur w" "stdin ?w0 = stdin w"
    using assms(1) by (simp_all add: print_out_fields)
  have len: "length ?qs \<le> length (stdin ?w0)"
    using assms(2) w0 by simp
  obtain w2 where asked: "ask_all 0 ?qs ?w0 = (Inr ?k, w2)"
    and w2: "cur w2 = cur w" "faults w2 = []"
    using ask_all_enough_input [OF len, of 0] w0
    by (cases "ask_all 0 ?qs ?w0") simp
  show ?thesis
    using w0 w2 correct_answers_bounds [of ?qs "stdin w"]
    by (simp add: play_def execute_select_questions_def execute_insert_score_def commit_def
        storage_call_def asked Let_def print_out_fields)
qed

theorem play_records_score_witness:
  "faults (new_world\<lparr>cur := empty_tables\<lparr>questions := take 2 seed_questions\<rparr>,
             stdin := [''  Central Processing Unit '', ''gpu'']\<rparr>) = [] \<and>
   length (questions (cur (new_world\<lparr>cur := empty_tables\<lparr>questions := take 2 seed_questions\<rparr>,
             stdin := [''  Central Processing Unit '', ''gpu'']\<rparr>))) \<le>
     length (stdin (new_world\<lparr>cur := empty_tables\<lparr>questions := take 2 seed_questions\<rparr>,
             stdin := [''  Central Processing Unit '', ''gpu'']\<rparr>)) \<and>
   scores (cur (snd (play ''alice''
      (new_world\<lparr>cur := empty_tables\<lparr>questions := take 2 seed_questions\<rparr>,
             stdin := [''  Central Processing Unit '', ''gpu'']\<rparr>)))) = [(''alice'', 1)]"
proof -
  let ?w = "new_world\<lparr>cur := empty_tables\<lparr>questions := take 2 seed_questions\<rparr>,
             stdin := [''  Central Processing Unit '', ''gpu'']\<rparr>"
  have f: "faults ?w = []"
    by (simp add: new_world_def)
  have q: "questions (cur ?w) = take 2 seed_questions" and i: "stdin ?w = [''  Central Processing Unit '', ''gpu'']"
    and s: "scores (cur ?w) = []"
    by (simp_all add: empty_tables_def)
  have n: "length (questions (cur ?w)) \<le> length (stdin ?w)"
    by (simp add: q i seed_questions_def)
  have k: "correct_answers (take 2 seed_questions) [''  Central Processing Unit '', ''gpu''] = 1"
    by code_simp
  show ?thesis
    using f n play_records_score [OF f n, of "''alice''"]
    by (simp only: q i s k) simp
qed

text \<open>
  C8. Two registrations that returned True, with the same password, are for different
  user names, and when the salts drawn for them differ, the two stored records differ:
  each record starts with its salt. (Whether two salts differ is a matter of the random
  bytes; the model takes them as inputs.)
\<close>

theorem different_salts_different_records:
  assumes "fst (register_user H rnd1 username1 password w) = Inr True"
    and "fst (register_user H rnd2 username2 password
                (snd (register_user H rnd1 username1 password w))) = Inr True"
    and "length (sha256 H rnd1) = 32" and "length (sha256 H rnd2) = 32"
    and "salt_of H rnd1 \<noteq> salt_of H rnd2"
  shows "username1 \<noteq> username2 \<and>
         (\<exists>r1 r2.
           users (cur (snd (register_user H rnd2 username2 password
                  (snd (register_user H rnd1 username1 password w))))) username1 = Some r1 \<and>
           users (cur (snd (register_user H rnd2 username2 password
                  (snd (register_user H rnd1 username1 password w))))) username2 = Some r2 \<and>
           take 64 r1 = salt_of H rnd1 \<and> take 64 r2 = salt_of H rnd2 \<and>
           r1 \<noteq> r2)"
proof -
  let ?w1 = "snd (register_user H rnd1 username1 password w)"
  let ?w2 = "snd (register_user H rnd2 username2 password ?w1)"
  let ?r1 = "salt_of H rnd1 @ hexlify (derived_key H password (salt_of H rnd1))"
  let ?r2 = "salt_of H rnd2 @ hexlify (derived_key H password (salt_of H rnd2))"
  note s1 = register_user_True_stored [OF assms(1)]
  note s2 = register_user_True_stored [OF assms(2)]
  from s1 s2 have ne: "username1 \<noteq> username2" by auto
  have u1: "users (cur ?w2) username1 = Some ?r1"
    using register_user_True_others [OF assms(2) ne] s1 by simp
  have u2: "users (cur ?w2) username2 = Some ?r2"
    using s2 by simp
  have t1: "take 64 ?r1 = salt_of H rnd1" and t2: "take 64 ?r2 = salt_of H rnd2"
    using length_salt_of [OF assms(3)] length_salt_of [OF assms(4)] by simp_all
  have "?r1 \<noteq> ?r2"
    using t1 t2 assms(5) by metis
  with ne u1 u2 t1 t2 show ?thesis by blast
qed

theorem different_salts_different_records_witness:
  "fst (register_user demo_hashlib (replicate 60 (CHR 0x01)) ''alice'' ''password1'' new_world)
     = Inr True \<and>
   fst (register_user demo_hashlib (replicate 60 (CHR 0x02)) ''bobby'' ''password1''
          (snd (register_user demo_hashlib (replicate 60 (CHR 0x01)) ''alice'' ''password1''
                  new_world))) = Inr True \<and>
   salt_of demo_hashlib (replicate 60 (CHR 0x01)) \<noteq> salt_of demo_hashlib (replicate 60 (CHR 0x02)) \<and>
   users (cur (snd (register_user demo_hashlib (replicate 60 (CHR 0x02)) ''bobby'' ''password1''
          (snd (register_user demo_hashlib (replicate 60 (CHR 0x01)) ''alice'' ''password1''
                  new_world))))) ''alice'' \<noteq>
   users (cur (snd (register_user demo_hashlib (replicate 60 (CHR 0x02)) ''bobby'' ''password1''
          (snd (register_user demo_hashlib (replicate 60 (CHR 0x01)) ''alice'' ''password1''
                  new_world))))) ''bobby''"
proof -
  let ?w1 = "snd (register_user demo_hashlib (replicate 60 (CHR 0x01)) ''alice'' ''password1''
                  new_world)"
  have v1: "valid_input ''alice'' ''password1''" and v2: "valid_input ''bobby'' ''password1''"
    by (simp_all add: valid_input_def isalnum_char_def)
  have u: "users (cur new_world) ''alice'' = None"
    by (simp add: new_world_def empty_tables_def)
  have f: "faults new_world = []"
    by (simp add: new_world_def)
  have r1: "fst (register_user demo_hashlib (replicate 60 (CHR 0x01)) ''alice'' ''password1''
                   new_world) = Inr True"
    by (simp add: register_user_fresh [OF v1 u f])
  have u2: "users (cur ?w1) ''bobby'' = None" and f2: "faults ?w1 = []"
    by (simp_all add: register_user_fresh [OF v1 u f]) (simp_all add: new_world_def empty_tables_def)
  have r2: "fst (register_user demo_hashlib (replicate 60 (CHR 0x02)) ''bobby'' ''password1'' ?w1)
              = Inr True"
    by (simp add: register_user_fresh [OF v2 u2 f2])
  have l1: "length (sha256 demo_hashlib (replicate 60 (CHR 0x01))) = 32"
    and l2: "length (sha256 demo_hashlib (replicate 60 (CHR 0x02))) = 32"
    by (simp_all add: demo_hashlib_def rfc_hashlib_def stub_hash_def)
  have "sha256 demo_hashlib (replicate 60 (CHR 0x01)) \<noteq> sha256 demo_hashlib (replicate 60 (CHR 0x02))"
    by (simp add: demo_hashlib_def rfc_hashlib_def stub_hash_def)
  then have d: "salt_of demo_hashlib (replicate 60 (CHR 0x01)) \<noteq> salt_of demo_hashlib (replicate 60 (CHR 0x02))"
    unfolding salt_of_def by (blast dest: hexlify_inj)
  show ?thesis
    using r1 r2 d different_salts_different_records [OF r1 r2 l1 l2 d]
    by auto
qed

text \<open>
  C9, as amended. \<open>add_question\<close> stores the answer as it is given, neither
  lower-cased nor trimmed: with a storage layer that does not fail, the row it appends is
  the question and the answer of the call, so the stored answer is in canonical form
  exactly when the answer given is, as the seven answers of the main block are.
  \<open>ask_question\<close> compares the lower-cased, trimmed input line with the stored answer
  as it stands, so a stored answer that is not in canonical form is matched by no input.
\<close>

theorem add_question_verbatim:
  assumes "faults w = []"
  shows "questions (cur (snd (add_question question answer w))) =
           questions (cur w) @ [(question, answer)] \<and>
         questions (disk (snd (add_question question answer w))) =
           questions (cur w) @ [(question, answer)] \<and>
         canonical (snd (last (questions (cur (snd (add_question question answer w)))))) =
           canonical answer \<and>
         list_all (\<lambda>qa. canonical (snd qa)) seed_questions \<and>
         fst (ask_question question answer (v\<lparr>stdin := line # rest\<rparr>)) =
           Inr (if strip (lower line) = answer then 1 else 0) \<and>
         (\<not> canonical answer \<longrightarrow> fst (ask_question question answer v) \<noteq> Inr 1)"
proof -
  have "fst (ask_question question answer (v\<lparr>stdin := line # rest\<rparr>)) =
           Inr (if strip (lower line) = answer then 1 else 0)"
    by (simp add: ask_question_def print_out_def Let_def)
  moreover have "\<not> canonical answer \<longrightarrow> fst (ask_question question answer v) \<noteq> Inr 1"
    using non_canonical_answer_never_matches [of answer question v] by blast
  ultimately show ?thesis
    using assms seed_canonical
    by (simp add: add_question_def execute_insert_question_def commit_def storage_call_def)
qed

theorem add_question_verbatim_witness:
  "faults new_world = [] \<and>
   questions (cur (snd (add_question ''What does CPU stand for? '' ''central processing unit''
                          new_world))) =
     [(''What does CPU stand for? '', ''central processing unit'')] \<and>
   canonical ''central processing unit'' \<and>
   \<not> canonical ''Paris'' \<and>
   questions (cur (snd (add_question ''Capital of France? '' ''Paris'' new_world))) =
     [(''Capital of France? '', ''Paris'')] \<and>
   fst (ask_question ''Capital of France? '' ''Paris'' (new_world\<lparr>stdin := [''Paris'']\<rparr>))
     \<noteq> Inr 1"
proof -
  have f: "faults new_world = []"
    by (simp add: new_world_def)
  have q: "questions (cur new_world) = []"
    by (simp add: new_world_def empty_tables_def)
  have c: "canonical ''central processing unit''"
    using seed_canonical by (simp add: seed_questions_def)
  have p: "\<not> canonical ''Paris''"
    by (simp add: canonical_def lower_Paris)
  show ?thesis
    using f c p
      add_question_verbatim [OF f, where question = "''What does CPU stand for? ''"
        and answer = "''central processing unit''"]
      add_question_verbatim [OF f, where question = "''Capital of France? ''"
        and answer = "''Paris''" and v = "new_world\<lparr>stdin := [''Paris'']\<rparr>"]
    by (simp add: q lower_Paris)
qed

text \<open>
  The claim as it stands fails: \<open>add_question\<close> with the answer \<open>Paris\<close>
  stores \<open>Paris\<close>, which is not its own lower-cased, trimmed form \<open>paris\<close>.
\<close>

theorem add_question_not_canonical:
  "snd (last (questions (cur (snd (add_question ''Capital of France? '' ''Paris'' new_world)))))
     = ''Paris'' \<and>
   \<not> canonical ''Paris'' \<and> strip (lower ''Paris'') = ''paris''"
proof -
  have "snd (last (questions (cur (snd (add_question ''Capital of France? '' ''Paris'' new_world)))))
     = ''Paris''"
    by (simp add: add_question_def execute_insert_question_def commit_def storage_call_def
      new_world_def empty_tables_def)
  moreover have "\<not> canonical ''Paris''"
    by (simp add: canonical_def lower_Paris)
  ultimately show ?thesis
    by (simp add: lower_Paris)
qed

text \<open>
  C10. With no question in the store and a storage layer that does not fail,
  \<open>play\<close> records the score 0 for the user, commits it, and then raises
  \<open>ZeroDivisionError\<close>: its last line divides by the number of questions.
\<close>

theorem play_empty_store_divides_by_zero:
  assumes "questions (cur w) = []" and "faults w = []"
  shows "fst (play username w) = Inl ZeroDivisionError \<and>
         scores (cur (snd (play username w))) = scores (cur w) @ [(username, 0)] \<and>
         scores (disk (snd (play username w))) = scores (cur w) @ [(username, 0)]"
  using assms
  by (simp add: play_def execute_select_questions_def execute_insert_score_def commit_def
      storage_call_def print_out_def Let_def)

theorem play_empty_store_divides_by_zero_witness:
  "questions (cur new_world) = [] \<and> faults new_world = [] \<and>
   fst (play ''alice'' new_world) = Inl ZeroDivisionError \<and>
   scores (cur (snd (play ''alice'' new_world))) = [(''alice'', 0)] \<and>
   scores (disk (snd (play ''alice'' new_world))) = [(''alice'', 0)]"
proof -
  have q: "questions (cur new_world) = []" and s: "scores (cur new_world) = []"
    by (simp_all add: new_world_def empty_tables_def)
  have f: "faults new_world = []"
    by (simp add: new_world_def)
  show ?thesis
    using q f play_empty_store_divides_by_zero [OF q f, of "''alice''"]
    by (simp add: s)
qed

end
